theory Spec2Isabelle
  imports Main "HOL-Library.Char_ord" "HOL-Library.List_Lexorder"
    "HOL-Library.Product_Lexorder" "HOL-Library.Multiset" "HOL-Library.Monad_Syntax"
begin

section \<open>Text primitives of the Python runtime\<close>

text \<open>
  Strings are lists of code points below 256. The character classes are the ones the
  Python 3 runtime uses on that range: \<open>str.isspace\<close> (also the class \<open>\s\<close> of
  the \<open>re\<close> module), the narrower blank class that \<open>int()\<close> skips, and the decimal
  digits.
\<close>

definition isspace :: "char \<Rightarrow> bool" where
  "isspace c = (of_char c \<in> {9, 10, 11, 12, 13, 28, 29, 30, 31, 32, 133, 160 :: nat})"

definition int_blank :: "char \<Rightarrow> bool" where
  "int_blank c = (of_char c \<in> {9, 10, 11, 12, 13, 32, 133, 160 :: nat})"

definition isdigit :: "char \<Rightarrow> bool" where
  "isdigit c = (48 \<le> (of_char c :: nat) \<and> (of_char c :: nat) \<le> 57)"

definition digit_val :: "char \<Rightarrow> int" where
  "digit_val c = int (of_char c) - 48"

definition in_range :: "char \<Rightarrow> char \<Rightarrow> char \<Rightarrow> bool" where
  "in_range lo hi c = ((of_char lo :: nat) \<le> of_char c \<and> (of_char c :: nat) \<le> of_char hi)"

text \<open>\<open>s.strip()\<close>: leading and trailing whitespace removed.\<close>

definition str_strip :: "string \<Rightarrow> string" where
  "str_strip s = rev (dropWhile isspace (rev (dropWhile isspace s)))"

text \<open>\<open>s.split(sep)\<close> for a one-character separator: always at least one part.\<close>

fun str_split :: "char \<Rightarrow> string \<Rightarrow> string list" where
  "str_split sep [] = [[]]"
| "str_split sep (c # cs) =
     (if c = sep then [] # str_split sep cs
      else (case str_split sep cs of
              p # ps \<Rightarrow> (c # p) # ps
            | [] \<Rightarrow> [[c]]))"

text \<open>
  \<open>int(text)\<close>: blanks around the literal are skipped, one sign is allowed, then decimal
  digits, where a single underscore may stand between two digits. \<open>None\<close> is the
  \<open>ValueError\<close>.
\<close>

fun int_digits :: "int \<Rightarrow> string \<Rightarrow> int option" where
  "int_digits acc [] = Some acc"
| "int_digits acc [c] = (if isdigit c then Some (10 * acc + digit_val c) else None)"
| "int_digits acc (c # d # cs) =
     (if isdigit c then int_digits (10 * acc + digit_val c) (d # cs)
      else if c = CHR ''_'' \<and> isdigit d then int_digits (10 * acc + digit_val d) cs
      else None)"

definition int_unsigned :: "string \<Rightarrow> int option" where
  "int_unsigned s =
     (case s of
        [] \<Rightarrow> None
      | c # cs \<Rightarrow> if isdigit c then int_digits (digit_val c) cs else None)"

definition py_int :: "string \<Rightarrow> int option" where
  "py_int s =
     (let t = rev (dropWhile int_blank (rev (dropWhile int_blank s))) in
      case t of
        [] \<Rightarrow> None
      | c # cs \<Rightarrow>
          if c = CHR ''-'' then map_option uminus (int_unsigned cs)
          else if c = CHR ''+'' then int_unsigned cs
          else int_unsigned t)"

section \<open>Dates and times\<close>

text \<open>
  \<open>datetime.date\<close> and its subclass \<open>datetime.datetime\<close> (naive, as the program
  never attaches a time zone).
\<close>

record date =
  year :: int
  month :: int
  day :: int

record datetime = date +
  hour :: int
  minute :: int
  second :: int
  microsecond :: int

definition is_leap :: "int \<Rightarrow> bool" where
  "is_leap y = (y mod 4 = 0 \<and> (y mod 400 = 0 \<or> y mod 100 \<noteq> 0))"

definition days_in_month :: "int \<Rightarrow> int \<Rightarrow> int" where
  "days_in_month y m =
     (if m = 2 then (if is_leap y then 29 else 28)
      else if m = 4 \<or> m = 6 \<or> m = 9 \<or> m = 11 then 30
      else 31)"

definition valid_date :: "int \<Rightarrow> int \<Rightarrow> int \<Rightarrow> bool" where
  "valid_date y m d =
     (1 \<le> y \<and> y \<le> 9999 \<and> 1 \<le> m \<and> m \<le> 12 \<and> 1 \<le> d \<and> d \<le> days_in_month y m)"

text \<open>
  The constructor \<open>datetime(year, month, day, hour, minute, second)\<close>: a field out of
  range raises (\<open>ValueError\<close>, or \<open>OverflowError\<close> for a number beyond a C int), which
  is \<open>None\<close> here.
\<close>

definition datetime_new :: "int \<Rightarrow> int \<Rightarrow> int \<Rightarrow> int \<Rightarrow> int \<Rightarrow> int \<Rightarrow> datetime option" where
  "datetime_new y m d hh mm ss =
     (if valid_date y m d \<and> 0 \<le> hh \<and> hh \<le> 23 \<and> 0 \<le> mm \<and> mm \<le> 59 \<and> 0 \<le> ss \<and> ss \<le> 59
      then Some \<lparr>year = y, month = m, day = d,
                 hour = hh, minute = mm, second = ss, microsecond = 0\<rparr>
      else None)"

section \<open>strptime for the two dated formats\<close>

text \<open>
  \<open>datetime.strptime\<close> compiles a format into a regular expression and takes the first
  match the backtracking matcher finds at the start of the text; text left over after that
  match is an error. A matcher below returns its possible matches in the order the
  regular expression tries them, so the head of the list is the match Python takes.
\<close>

definition re_one :: "(char \<Rightarrow> bool) \<Rightarrow> string \<Rightarrow> (string \<times> string) list" where
  "re_one p s = (case s of a # r \<Rightarrow> (if p a then [([a], r)] else []) | [] \<Rightarrow> [])"

definition re_two :: "(char \<Rightarrow> bool) \<Rightarrow> (char \<Rightarrow> bool) \<Rightarrow> string \<Rightarrow> (string \<times> string) list" where
  "re_two p q s =
     (case s of
        a # b # r \<Rightarrow> (if p a \<and> q b then [([a, b], r)] else [])
      | _ \<Rightarrow> [])"

definition re_lit :: "char \<Rightarrow> string \<Rightarrow> string list" where
  "re_lit c s = (case s of a # r \<Rightarrow> (if a = c then [r] else []) | [] \<Rightarrow> [])"

text \<open>\<open>\s+\<close>: greedy, so the longest run of whitespace is tried first.\<close>

definition re_ws :: "string \<Rightarrow> string list" where
  "re_ws s = map (\<lambda>k. drop k s) (rev [1 ..< Suc (length (takeWhile isspace s))])"

text \<open>\<open>%Y\<close> is \<open>\d\d\d\d\<close>.\<close>

definition re_Y :: "string \<Rightarrow> (string \<times> string) list" where
  "re_Y s =
     (case s of
        a # b # c # d # r \<Rightarrow>
          (if isdigit a \<and> isdigit b \<and> isdigit c \<and> isdigit d then [([a, b, c, d], r)] else [])
      | _ \<Rightarrow> [])"

text \<open>\<open>%m\<close> is \<open>1[0-2]|0[1-9]|[1-9]\<close>.\<close>

definition re_m :: "string \<Rightarrow> (string \<times> string) list" where
  "re_m s =
     re_two (\<lambda>c. c = CHR ''1'') (in_range CHR ''0'' CHR ''2'') s
     @ re_two (\<lambda>c. c = CHR ''0'') (in_range CHR ''1'' CHR ''9'') s
     @ re_one (in_range CHR ''1'' CHR ''9'') s"

text \<open>\<open>%d\<close> is \<open>3[0-1]|[1-2]\d|0[1-9]|[1-9]| [1-9]\<close>.\<close>

definition re_d :: "string \<Rightarrow> (string \<times> string) list" where
  "re_d s =
     re_two (\<lambda>c. c = CHR ''3'') (in_range CHR ''0'' CHR ''1'') s
     @ re_two (in_range CHR ''1'' CHR ''2'') isdigit s
     @ re_two (\<lambda>c. c = CHR ''0'') (in_range CHR ''1'' CHR ''9'') s
     @ re_one (in_range CHR ''1'' CHR ''9'') s
     @ re_two (\<lambda>c. c = CHR '' '') (in_range CHR ''1'' CHR ''9'') s"

text \<open>\<open>%H\<close> is \<open>2[0-3]|[0-1]\d|\d\<close>.\<close>

definition re_H :: "string \<Rightarrow> (string \<times> string) list" where
  "re_H s =
     re_two (\<lambda>c. c = CHR ''2'') (in_range CHR ''0'' CHR ''3'') s
     @ re_two (in_range CHR ''0'' CHR ''1'') isdigit s
     @ re_one isdigit s"

text \<open>\<open>%M\<close> is \<open>[0-5]\d|\d\<close>.\<close>

definition re_M :: "string \<Rightarrow> (string \<times> string) list" where
  "re_M s = re_two (in_range CHR ''0'' CHR ''5'') isdigit s @ re_one isdigit s"

text \<open>The five groups of a match, and the text after it.\<close>

record strptime_match =
  grp_Y :: string
  grp_m :: string
  grp_d :: string
  grp_H :: string
  grp_M :: string
  unconverted :: string

text \<open>\<open>%Y-%m-%d %H:%M\<close>\<close>

definition match_ymd :: "string \<Rightarrow> strptime_match list" where
  "match_ymd s =
     [\<lparr>grp_Y = gy, grp_m = gm, grp_d = gd, grp_H = gh, grp_M = gmi, unconverted = r9\<rparr>.
        (gy, r1) \<leftarrow> re_Y s, r2 \<leftarrow> re_lit CHR ''-'' r1,
        (gm, r3) \<leftarrow> re_m r2, r4 \<leftarrow> re_lit CHR ''-'' r3,
        (gd, r5) \<leftarrow> re_d r4, r6 \<leftarrow> re_ws r5,
        (gh, r7) \<leftarrow> re_H r6, r8 \<leftarrow> re_lit CHR '':'' r7,
        (gmi, r9) \<leftarrow> re_M r8]"

text \<open>\<open>%d.%m.%Y %H:%M\<close>\<close>

definition match_dmy :: "string \<Rightarrow> strptime_match list" where
  "match_dmy s =
     [\<lparr>grp_Y = gy, grp_m = gm, grp_d = gd, grp_H = gh, grp_M = gmi, unconverted = r9\<rparr>.
        (gd, r1) \<leftarrow> re_d s, r2 \<leftarrow> re_lit CHR ''.'' r1,
        (gm, r3) \<leftarrow> re_m r2, r4 \<leftarrow> re_lit CHR ''.'' r3,
        (gy, r5) \<leftarrow> re_Y r4, r6 \<leftarrow> re_ws r5,
        (gh, r7) \<leftarrow> re_H r6, r8 \<leftarrow> re_lit CHR '':'' r7,
        (gmi, r9) \<leftarrow> re_M r8]"

text \<open>
  From the match to the value: no match, or text left over, is a \<open>ValueError\<close>; so is a
  date the constructor refuses (30 February, year 0).
\<close>

definition strptime_build :: "strptime_match list \<Rightarrow> datetime option" where
  "strptime_build ms =
     (case ms of
        [] \<Rightarrow> None
      | g # _ \<Rightarrow>
          if unconverted g \<noteq> [] then None
          else do {
            y \<leftarrow> py_int (grp_Y g);
            m \<leftarrow> py_int (grp_m g);
            d \<leftarrow> py_int (grp_d g);
            hh \<leftarrow> py_int (grp_H g);
            mm \<leftarrow> py_int (grp_M g);
            datetime_new y m d hh mm 0
          })"

datatype date_format = YMD_HM | DMY_HM

definition strptime :: "string \<Rightarrow> date_format \<Rightarrow> datetime option" where
  "strptime s fmt =
     (case fmt of
        YMD_HM \<Rightarrow> strptime_build (match_ymd s)
      | DMY_HM \<Rightarrow> strptime_build (match_dmy s))"

section \<open>parse_datetime\<close>

text \<open>
  The \<open>try\<close> block of \<open>parse_datetime\<close>: \<open>None\<close> when no branch returns, be it that the
  number of parts fits neither branch or that an exception was caught. \<open>today\<close> is the
  reading of \<open>date.today()\<close>.
\<close>

definition parse_time_only :: "date \<Rightarrow> string \<Rightarrow> datetime option" where
  "parse_time_only today s =
     (case str_split CHR '':'' s of
        [hh, mm] \<Rightarrow>
          do {
            hh_i \<leftarrow> py_int hh;
            mm_i \<leftarrow> py_int mm;
            datetime_new (year today) (month today) (day today) hh_i mm_i 0
          }
      | [hh, mm, ss] \<Rightarrow>
          if CHR '' '' \<in> set s then None
          else do {
            hh_i \<leftarrow> py_int hh;
            mm_i \<leftarrow> py_int mm;
            ss_i \<leftarrow> py_int ss;
            datetime_new (year today) (month today) (day today) hh_i mm_i ss_i
          }
      | _ \<Rightarrow> None)"

fun try_formats :: "string \<Rightarrow> date_format list \<Rightarrow> datetime option" where
  "try_formats s [] = None"
| "try_formats s (fmt # fmts) =
     (case strptime s fmt of Some dt \<Rightarrow> Some dt | None \<Rightarrow> try_formats s fmts)"

definition parse_datetime :: "date \<Rightarrow> string \<Rightarrow> datetime option" where
  "parse_datetime today user_text =
     (let s = str_strip user_text in
      case parse_time_only today s of
        Some dt \<Rightarrow> Some dt
      | None \<Rightarrow> try_formats s [YMD_HM, DMY_HM])"

section \<open>Comparing and shifting times\<close>




text \<open>
  Subtraction goes through the proleptic Gregorian ordinal of the date
  (\<open>date.toordinal\<close>: 1 January of year 1 is day 1); \<open>total_seconds()\<close> of the
  difference is kept in whole microseconds, so that its sign is exact.
\<close>

definition days_before_year :: "int \<Rightarrow> int" where
  "days_before_year y = (y - 1) * 365 + (y - 1) div 4 - (y - 1) div 100 + (y - 1) div 400"

definition days_before_month :: "int \<Rightarrow> int \<Rightarrow> int" where
  "days_before_month y m = sum_list (map (days_in_month y) [1 .. m - 1])"

definition toordinal :: "datetime \<Rightarrow> int" where
  "toordinal t = days_before_year (year t) + days_before_month (year t) (month t) + day t"

definition total_us :: "datetime \<Rightarrow> int" where
  "total_us t =
     ((toordinal t * 86400 + hour t * 3600 + minute t * 60 + second t) * 1000000
      + microsecond t)"

definition delay_us :: "datetime \<Rightarrow> datetime \<Rightarrow> int" where
  "delay_us due now = total_us due - total_us now"


section \<open>Models\<close>

text \<open>
  The dataclasses of the program. \<open>raw_entity\<close> is an opaque handle of the messaging
  library. A field is renamed where its Python name is taken in HOL: \<open>did\<close> and \<open>tid\<close>
  are the two \<open>id\<close> fields, \<open>dialog_title\<close> is the title of a dialog, and the fields of a
  job carry the prefix \<open>job_\<close>.
\<close>

record DialogInfo =
  did :: int
  dialog_title :: string
  kind :: string
  is_forum :: bool
  raw_entity :: nat

record TopicInfo =
  tid :: int
  title :: string
  unread_count :: int
  pinned :: bool
  closed :: bool

record SendTarget =
  dialog :: DialogInfo
  topic_id :: "int option"
  topic_title :: "string option"

record ScheduledJob =
  job_target :: SendTarget
  job_text :: string
  job_when :: datetime

text \<open>
  An exception in flight: a cancellation (\<open>asyncio.CancelledError\<close>, which is not an
  \<open>Exception\<close>) or an \<open>Exception\<close> with the name of its class.
\<close>

datatype exn = CancelledError | Error string

section \<open>The messaging client\<close>

text \<open>
  What the program sees of the messaging library. A forum topic and a message as a page
  of \<open>GetForumTopicsRequest\<close> returns them: the program reads every attribute with
  \<open>getattr\<close> and a default, so each attribute may be missing (\<open>None\<close>; for the date of
  a message also when it is not a \<open>datetime\<close>).
\<close>

record forum_topic =
  ft_id :: "int option"
  ft_title :: "string option"
  ft_unread_count :: "int option"
  ft_pinned :: "bool option"
  ft_closed :: "bool option"
  ft_top_message :: "int option"

record message =
  msg_id :: "int option"
  msg_date :: "datetime option"

record forum_topics =
  topics :: "forum_topic list"
  messages :: "message list"

record cursor =
  offset_date :: "datetime option"
  offset_id :: int
  offset_topic :: int

record request = cursor +
  limit :: int

record send_call =
  to_entity :: nat
  body :: string
  reply_to :: "int option"

text \<open>
  The client: how the far side answers a page request and a send (\<open>None\<close>: the message
  was sent; an exception otherwise), and the calls made so far, oldest first.
\<close>

record TelegramClient =
  respond :: "request \<Rightarrow> exn + forum_topics"
  deliver :: "send_call \<Rightarrow> exn option"
  requests :: "request list"
  sent :: "send_call list"

definition invoke :: "TelegramClient \<Rightarrow> request \<Rightarrow> TelegramClient \<times> (exn + forum_topics)" where
  "invoke cl rq = (cl\<lparr>requests := requests cl @ [rq]\<rparr>, respond cl rq)"

definition send_message :: "TelegramClient \<Rightarrow> send_call \<Rightarrow> TelegramClient \<times> exn option" where
  "send_message cl c = (cl\<lparr>sent := sent cl @ [c]\<rparr>, deliver cl c)"

section \<open>get_all_forum_topics\<close>

text \<open>\<open>str.lower\<close> on code points below 256.\<close>

definition lower_char :: "char \<Rightarrow> char" where
  "lower_char c =
     (let n = (of_char c :: nat) in
      if (65 \<le> n \<and> n \<le> 90) \<or> (192 \<le> n \<and> n \<le> 222 \<and> n \<noteq> 215) then char_of (n + 32) else c)"

definition lower :: "string \<Rightarrow> string" where
  "lower s = map lower_char s"

definition or_zero :: "int option \<Rightarrow> int" where
  "or_zero v = (case v of None \<Rightarrow> 0 | Some i \<Rightarrow> i)"

definition or_false :: "bool option \<Rightarrow> bool" where
  "or_false v = (case v of None \<Rightarrow> False | Some b \<Rightarrow> b)"

text \<open>The \<open>for t in topics\<close> loop: a topic whose title is missing or empty is skipped.\<close>

fun append_topics :: "TopicInfo list \<Rightarrow> forum_topic list \<Rightarrow> TopicInfo list" where
  "append_topics all_topics [] = all_topics"
| "append_topics all_topics (t # ts) =
     (case ft_title t of
        None \<Rightarrow> append_topics all_topics ts
      | Some ti \<Rightarrow>
          if ti = [] then append_topics all_topics ts
          else append_topics
                 (all_topics @
                    [\<lparr>tid = or_zero (ft_id t), title = ti,
                      unread_count = or_zero (ft_unread_count t),
                      pinned = or_false (ft_pinned t), closed = or_false (ft_closed t)\<rparr>])
                 ts)"

text \<open>The \<open>for m in messages\<close> loop: the date of the first message with the given id.\<close>

fun last_msg_date :: "int \<Rightarrow> message list \<Rightarrow> datetime option" where
  "last_msg_date oid [] = None"
| "last_msg_date oid (m # ms) =
     (if msg_id m = Some oid then msg_date m else last_msg_date oid ms)"

text \<open>The cursor after a page, from the last topic of the page (the page is not empty).\<close>

definition next_cursor :: "forum_topics \<Rightarrow> cursor" where
  "next_cursor res =
     \<lparr>offset_date = last_msg_date (or_zero (ft_top_message (last (topics res)))) (messages res),
      offset_id = or_zero (ft_top_message (last (topics res))),
      offset_topic = or_zero (ft_id (last (topics res)))\<rparr>"

definition page_request :: "cursor \<Rightarrow> int \<Rightarrow> request" where
  "page_request cur lim =
     \<lparr>offset_date = offset_date cur, offset_id = offset_id cur,
      offset_topic = offset_topic cur, limit = lim\<rparr>"

text \<open>
  The \<open>while True\<close> loop. It returns the client with its log of requests, and either
  the exception of a failed request or the topics collected. A far side that keeps
  answering with full pages keeps the loop running: then there is no result (\<open>None\<close>).
\<close>

partial_function (option) topics_loop ::
  "TelegramClient \<Rightarrow> int \<Rightarrow> cursor \<Rightarrow> TopicInfo list \<Rightarrow> (TelegramClient \<times> (exn + TopicInfo list)) option" where
  "topics_loop cl lim cur all_topics =
     (case invoke cl (page_request cur lim) of
        (cl1, Inl e) \<Rightarrow> Some (cl1, Inl e)
      | (cl1, Inr res) \<Rightarrow>
          if topics res = [] then Some (cl1, Inr all_topics)
          else if int (length (topics res)) < lim
            then Some (cl1, Inr (append_topics all_topics (topics res)))
          else topics_loop cl1 lim (next_cursor res) (append_topics all_topics (topics res)))"

declare topics_loop.simps [code]

definition sort_topics :: "TopicInfo list \<Rightarrow> TopicInfo list" where
  "sort_topics ts = sort_key (\<lambda>x. (\<not> pinned x, lower (title x))) ts"

definition get_all_forum_topics ::
  "TelegramClient \<Rightarrow> int \<Rightarrow> (TelegramClient \<times> (exn + TopicInfo list)) option" where
  "get_all_forum_topics cl lim =
     (case topics_loop cl lim \<lparr>offset_date = None, offset_id = 0, offset_topic = 0\<rparr> [] of
        None \<Rightarrow> None
      | Some (cl1, Inl e) \<Rightarrow> Some (cl1, Inl e)
      | Some (cl1, Inr all_topics) \<Rightarrow> Some (cl1, Inr (sort_topics all_topics)))"

section \<open>send_text_to_target\<close>

text \<open>
  The test \<open>target.topic_id and target.topic_id != 1\<close>: a topic id that is \<open>None\<close> or 0
  is false in Python.
\<close>

definition send_text_to_target :: "TelegramClient \<Rightarrow> SendTarget \<Rightarrow> string \<Rightarrow> TelegramClient \<times> exn option" where
  "send_text_to_target cl tgt txt =
     (if topic_id tgt \<noteq> None \<and> topic_id tgt \<noteq> Some 0 \<and> topic_id tgt \<noteq> Some 1
      then send_message cl
             \<lparr>to_entity = raw_entity (dialog tgt), body = txt, reply_to = topic_id tgt\<rparr>
      else send_message cl
             \<lparr>to_entity = raw_entity (dialog tgt), body = txt, reply_to = None\<rparr>)"

section \<open>The application: scheduling, running and sweeping jobs\<close>

text \<open>
  The status line and the error log hold the message that was written, without its
  wording. A task is the handle of one running \<open>_run_job\<close>; \<open>spawned\<close> numbers the
  handles, as object identity does in Python.
\<close>

datatype status =
  Ready
  | Empty_text
  | Bad_time
  | Scheduled SendTarget datetime
  | Send_error SendTarget string
  | Message_sent SendTarget

datatype log_entry = Task_error string | Loop_error string

record task =
  task_no :: nat
  task_job :: ScheduledJob

record TelegramTui =
  client :: TelegramClient
  jobs :: "ScheduledJob list"
  job_tasks :: "task list"
  status_bar :: status
  error_log :: "log_entry list"
  spawned :: nat




text \<open>
  \<open>_run_job\<close>. \<open>corrected_now\<close> is the clock reading at its start; \<open>cancelled\<close> says
  whether the task is cancelled while it sleeps. A cancellation during the send reaches
  the task as the outcome of the send. The result is the exception that leaves the
  coroutine, if any.
\<close>

definition run_job ::
  "datetime \<Rightarrow> bool \<Rightarrow> ScheduledJob \<Rightarrow> TelegramTui \<Rightarrow> TelegramTui \<times> exn option" where
  "run_job corrected_now cancelled job app =
     (if 0 < delay_us (job_when job) corrected_now \<and> cancelled then (app, None)
      else
        case send_text_to_target (client app) (job_target job) (job_text job) of
          (cl, Some (Error e)) \<Rightarrow>
            (app\<lparr>client := cl, status_bar := Send_error (job_target job) e\<rparr>, None)
        | (cl, Some CancelledError) \<Rightarrow> (app\<lparr>client := cl\<rparr>, Some CancelledError)
        | (cl, None) \<Rightarrow> (app\<lparr>client := cl, status_bar := Message_sent (job_target job)\<rparr>, None))"

text \<open>
  What one pass of the cleanup loop meets: whether the loop's task is cancelled during
  its sleep, the state of every job task, the clock reading, and \<open>fault\<close>, the class
  name of an exception that the statements dropping the expired jobs raise. Those
  statements are not expected to raise; the field stands for the unexpected exception the
  last handler of the loop is written for.
\<close>

datatype task_state = Running | Done_ok | Done_raised string | Done_cancelled

record sweep_env =
  sleep_cancelled :: bool
  task_states :: "task \<Rightarrow> task_state"
  fault :: "string option"
  now :: datetime





section \<open>A forum on the far side\<close>

text \<open>
  A far side that holds the topics of one forum in a fixed order and pages through them:
  a request with \<open>offset_topic = 0\<close> starts at the first topic, any other one starts after
  the topic with that id, and at most \<open>limit\<close> topics come back, together with the
  messages the far side knows. The ids are distinct and none is 0.
\<close>

definition forum_id :: "forum_topic \<Rightarrow> int" where
  "forum_id t = or_zero (ft_id t)"

definition well_formed :: "forum_topic list \<Rightarrow> bool" where
  "well_formed forum = (distinct (map forum_id forum) \<and> 0 \<notin> set (map forum_id forum))"

definition forum_respond :: "forum_topic list \<Rightarrow> message list \<Rightarrow> request \<Rightarrow> exn + forum_topics" where
  "forum_respond forum msgs rq =
     Inr \<lparr>topics =
            take (nat (limit rq))
              (if offset_topic rq = 0 then forum
               else drop 1 (dropWhile (\<lambda>t. forum_id t \<noteq> offset_topic rq) forum)),
          messages = msgs\<rparr>"

definition forum_client :: "forum_topic list \<Rightarrow> message list \<Rightarrow> TelegramClient" where
  "forum_client forum msgs =
     \<lparr>respond = forum_respond forum msgs, deliver = (\<lambda>c. None), requests = [], sent = []\<rparr>"

text \<open>The number of page requests a call has made, when it returns.\<close>

definition round_trips :: "(TelegramClient \<times> (exn + TopicInfo list)) option \<Rightarrow> nat option" where
  "round_trips r = map_option (\<lambda>p. length (requests (fst p))) r"

section \<open>What a run of the paginator looks like\<close>

text \<open>
  The cursor after a page, in the words of the specification: the id of the last topic,
  the id of its top message, and the date of the message of the page with that id, if
  there is one.
\<close>

definition cursor_from_last :: "forum_topics \<Rightarrow> cursor" where
  "cursor_from_last res =
     \<lparr>offset_date =
        (case find (\<lambda>m. msg_id m = Some (or_zero (ft_top_message (last (topics res)))))
                (messages res) of
           None \<Rightarrow> None
         | Some m \<Rightarrow> msg_date m),
      offset_id = or_zero (ft_top_message (last (topics res))),
      offset_topic = or_zero (ft_id (last (topics res)))\<rparr>"

text \<open>
  The requests of one run, oldest first, against a far side that answers by \<open>rsp\<close>: each
  request carries the current cursor; after a failed request, an empty page or a page
  shorter than the limit nothing follows; after any other page the next request carries
  the cursor taken from that page. The run starts with the cursor \<open>cur\<close>.
\<close>

fun paged :: "(request \<Rightarrow> exn + forum_topics) \<Rightarrow> int \<Rightarrow> cursor \<Rightarrow> request list \<Rightarrow> bool" where
  "paged rsp lim cur [] = False"
| "paged rsp lim cur (rq # rqs) =
     (rq = page_request cur lim \<and>
      (case rsp rq of
         Inl e \<Rightarrow> rqs = []
       | Inr res \<Rightarrow>
           if topics res = [] \<or> int (length (topics res)) < lim then rqs = []
           else paged rsp lim (cursor_from_last res) rqs))"

text \<open>The topics of the pages that came back for a list of requests.\<close>

definition fetched :: "(request \<Rightarrow> exn + forum_topics) \<Rightarrow> request list \<Rightarrow> forum_topic list" where
  "fetched rsp rqs = concat (map (\<lambda>rq. case rsp rq of Inl e \<Rightarrow> [] | Inr res \<Rightarrow> topics res) rqs)"

text \<open>The requests a call has added to the log of the client.\<close>

definition new_requests :: "TelegramClient \<Rightarrow> TelegramClient \<Rightarrow> request list" where
  "new_requests cl cl1 = drop (length (requests cl)) (requests cl1)"

text \<open>A fetched topic has a title when the attribute is there and not empty.\<close>

definition has_title :: "forum_topic \<Rightarrow> bool" where
  "has_title t = (ft_title t \<noteq> None \<and> ft_title t \<noteq> Some [])"

definition topic_info :: "forum_topic \<Rightarrow> TopicInfo" where
  "topic_info t =
     \<lparr>tid = or_zero (ft_id t), title = (case ft_title t of None \<Rightarrow> [] | Some ti \<Rightarrow> ti),
      unread_count = or_zero (ft_unread_count t),
      pinned = or_false (ft_pinned t), closed = or_false (ft_closed t)\<rparr>"

text \<open>
  The order of the result: a pinned topic never comes after an unpinned one, and of two
  topics that are both pinned or both unpinned the one with the smaller lower-cased
  title comes first.
\<close>

definition pinned_then_title :: "TopicInfo \<Rightarrow> TopicInfo \<Rightarrow> bool" where
  "pinned_then_title a b =
     ((pinned b \<longrightarrow> pinned a) \<and> (pinned a = pinned b \<longrightarrow> lower (title a) \<le> lower (title b)))"

section \<open>Writing a time of day\<close>

text \<open>The text \<open>HH:MM\<close> for an hour and a minute, each written with two decimal digits.\<close>

definition digit_char :: "nat \<Rightarrow> char" where
  "digit_char d = char_of (48 + d)"

definition two_digits :: "nat \<Rightarrow> string" where
  "two_digits n = [digit_char (n div 10), digit_char (n mod 10)]"

definition hh_mm :: "nat \<Rightarrow> nat \<Rightarrow> string" where
  "hh_mm h m = two_digits h @ [CHR '':''] @ two_digits m"

section \<open>Sample values\<close>

text \<open>Concrete values at which the properties below are instantiated.\<close>

definition moment :: "int \<Rightarrow> int \<Rightarrow> int \<Rightarrow> int \<Rightarrow> int \<Rightarrow> datetime" where
  "moment y m d hh mm =
     \<lparr>year = y, month = m, day = d, hour = hh, minute = mm, second = 0, microsecond = 0\<rparr>"

definition new_year :: date where
  "new_year = \<lparr>year = 2024, month = 1, day = 1\<rparr>"

definition team :: DialogInfo where
  "team = \<lparr>did = 7, dialog_title = ''Team'', kind = ''group'', is_forum = True, raw_entity = 7\<rparr>"

definition team_chat :: SendTarget where
  "team_chat = \<lparr>dialog = team, topic_id = None, topic_title = None\<rparr>"

definition idle_app :: TelegramTui where
  "idle_app =
     \<lparr>client = forum_client [] [], jobs = [], job_tasks = [], status_bar = Ready,
      error_log = [], spawned = 0\<rparr>"

definition job_at :: "int \<Rightarrow> ScheduledJob" where
  "job_at hh = \<lparr>job_target = team_chat, job_text = ''hello'', job_when = moment 2024 1 1 hh 0\<rparr>"



definition topic :: "int \<Rightarrow> string \<Rightarrow> bool \<Rightarrow> forum_topic" where
  "topic i ti pin =
     \<lparr>ft_id = Some i, ft_title = Some ti, ft_unread_count = None, ft_pinned = Some pin,
      ft_closed = None, ft_top_message = Some (100 + i)\<rparr>"

definition untitled :: "int \<Rightarrow> forum_topic" where
  "untitled i =
     \<lparr>ft_id = Some i, ft_title = None, ft_unread_count = None, ft_pinned = None,
      ft_closed = None, ft_top_message = Some (100 + i)\<rparr>"

definition two_topics :: "forum_topic list" where
  "two_topics = [topic 1 ''beta'' False, topic 2 ''Alpha'' False]"

definition five_topics :: "forum_topic list" where
  "five_topics =
     [topic 1 ''beta'' False, topic 2 ''Alpha'' False, untitled 3,
      topic 4 ''zeta'' True, topic 5 ''Gamma'' True]"

definition top_messages :: "message list" where
  "top_messages =
     [\<lparr>msg_id = Some 101, msg_date = Some (moment 2024 1 1 8 0)\<rparr>,
      \<lparr>msg_id = Some 102, msg_date = Some (moment 2024 1 1 9 0)\<rparr>,
      \<lparr>msg_id = Some 104, msg_date = None\<rparr>]"

text \<open>The requests and the result of paging through \<open>five_topics\<close> two at a time.\<close>

definition first_request :: request where
  "first_request = \<lparr>offset_date = None, offset_id = 0, offset_topic = 0, limit = 2\<rparr>"

definition second_request :: request where
  "second_request =
     \<lparr>offset_date = Some (moment 2024 1 1 9 0), offset_id = 102, offset_topic = 2, limit = 2\<rparr>"

definition third_request :: request where
  "third_request = \<lparr>offset_date = None, offset_id = 104, offset_topic = 4, limit = 2\<rparr>"

definition five_client :: TelegramClient where
  "five_client = forum_client five_topics top_messages"

definition five_done :: TelegramClient where
  "five_done = five_client\<lparr>requests := [first_request, second_request, third_request]\<rparr>"

definition five_result :: "TopicInfo list" where
  "five_result =
     [\<lparr>tid = 5, title = ''Gamma'', unread_count = 0, pinned = True, closed = False\<rparr>,
      \<lparr>tid = 4, title = ''zeta'', unread_count = 0, pinned = True, closed = False\<rparr>,
      \<lparr>tid = 2, title = ''Alpha'', unread_count = 0, pinned = False, closed = False\<rparr>,
      \<lparr>tid = 1, title = ''beta'', unread_count = 0, pinned = False, closed = False\<rparr>]"

section \<open>Properties\<close>

subsection \<open>Delivery\<close>

text \<open>
  C4, as stated, fails: a target whose topic id is 0 has a topic id that is present and
  differs from 1, and still the send is a plain one, with no reply target. The program
  never builds such a target on purpose, but it gives the id 0 to a topic that came
  without one.
\<close>

theorem send_topic_zero_is_plain:
  "map reply_to
     (sent (fst (send_text_to_target (forum_client [] [])
                   \<lparr>dialog = team, topic_id = Some 0, topic_title = None\<rparr> ''hello'')))
   = [None]"
  by code_simp

text \<open>
  C4, amended: every call of \<open>send_text_to_target\<close> makes exactly one send, to the
  handle of the dialog and with the given text, and its outcome is the outcome of that
  send. The send replies to the topic id when the id is present and neither 0 nor 1;
  otherwise it is a plain send without a reply target. So a target with topic id 1 and
  a target without a topic are sent alike.
\<close>

theorem send_text_to_target_one_call:
  "send_text_to_target cl tgt txt =
     (cl\<lparr>sent := sent cl @
          [\<lparr>to_entity = raw_entity (dialog tgt), body = txt,
            reply_to =
              (if topic_id tgt = Some 0 \<or> topic_id tgt = Some 1 then None else topic_id tgt)\<rparr>]\<rparr>,
      deliver cl
        \<lparr>to_entity = raw_entity (dialog tgt), body = txt,
          reply_to =
            (if topic_id tgt = Some 0 \<or> topic_id tgt = Some 1 then None else topic_id tgt)\<rparr>)"
  by (auto simp add: send_text_to_target_def send_message_def)

subsection \<open>Running one job\<close>

text \<open>
  C8: a job whose due time lies ahead and whose task is cancelled during the sleep ends
  with the application unchanged (so nothing was sent and the status line was not
  written) and with no exception leaving the coroutine.
\<close>

theorem run_job_cancelled_in_sleep:
  "0 < delay_us (job_when job) corrected_now \<Longrightarrow>
   run_job corrected_now True job app = (app, None)"
  by (simp add: run_job_def)

theorem run_job_cancelled_in_sleep_witness:
  "0 < delay_us (job_when (job_at 11)) (moment 2024 1 1 10 0) \<and>
   run_job (moment 2024 1 1 10 0) True (job_at 11) idle_app = (idle_app, None)"
proof -
  have ahead: "0 < delay_us (job_when (job_at 11)) (moment 2024 1 1 10 0)"
    by code_simp
  from ahead run_job_cancelled_in_sleep [OF ahead] show ?thesis
    by simp
qed

subsection \<open>The list of pending jobs\<close>





subsection \<open>The cleanup loop\<close>





subsection \<open>Parsing a time\<close>

text \<open>
  C9: the two dated spellings of 15 January 2030, 9:30, parse to the same value, whatever
  the current date is.
\<close>

theorem parse_datetime_two_spellings:
  "parse_datetime today ''2030-01-15 09:30'' = Some (moment 2030 1 15 9 30) \<and>
   parse_datetime today ''15.01.2030 09:30'' = Some (moment 2030 1 15 9 30)"
  by code_simp

lemma of_char_digit_char: "d < 10 \<Longrightarrow> (of_char (digit_char d) :: nat) = 48 + d"
  by (simp add: digit_char_def)

lemma digit_char_props:
  assumes "d < 10"
  shows "isdigit (digit_char d)" "digit_val (digit_char d) = int d"
  using assms by (simp_all add: isdigit_def digit_val_def of_char_digit_char)

lemma isdigit_not_special:
  assumes "isdigit c"
  shows "c \<noteq> CHR '':''" "c \<noteq> CHR ''-''" "c \<noteq> CHR ''+''" "c \<noteq> CHR ''.''"
    "c \<noteq> CHR ''_''" "c \<noteq> CHR '' ''" "\<not> isspace c" "\<not> int_blank c"
  using assms by (auto simp add: isdigit_def isspace_def int_blank_def)

lemma py_int_two:
  "isdigit a \<Longrightarrow> isdigit b \<Longrightarrow> py_int [a, b] = Some (10 * digit_val a + digit_val b)"
  by (simp add: py_int_def int_unsigned_def isdigit_not_special)

lemma strip_digits:
  "isdigit a \<Longrightarrow> isdigit d \<Longrightarrow> str_strip (a # xs @ [d]) = a # xs @ [d]"
  by (simp add: str_strip_def isdigit_not_special)

lemma split_two:
  "isdigit a \<Longrightarrow> isdigit b \<Longrightarrow> isdigit c \<Longrightarrow> isdigit d \<Longrightarrow>
   str_split CHR '':'' [a, b, CHR '':'', c, d] = [[a, b], [c, d]]"
  by (simp add: isdigit_not_special)

text \<open>Neither dated format matches five characters with a colon in the middle.\<close>

lemma no_ymd: "match_ymd [a, b, CHR '':'', c, d] = []"
  by (simp add: match_ymd_def re_Y_def isdigit_def)

lemma no_dmy: "isdigit a \<Longrightarrow> isdigit b \<Longrightarrow> match_dmy [a, b, CHR '':'', c, d] = []"
  by (simp add: match_dmy_def re_d_def re_two_def re_one_def re_lit_def isdigit_not_special)

lemma parse_digits:
  assumes "isdigit a" "isdigit b" "isdigit c" "isdigit d"
  shows "parse_datetime today [a, b, CHR '':'', c, d] =
     datetime_new (year today) (month today) (day today)
        (10 * digit_val a + digit_val b) (10 * digit_val c + digit_val d) 0"
proof -
  have s: "str_strip [a, b, CHR '':'', c, d] = [a, b, CHR '':'', c, d]"
    using strip_digits [of a d "[b, CHR '':'', c]"] assms by simp
  have p: "parse_time_only today [a, b, CHR '':'', c, d] =
     datetime_new (year today) (month today) (day today)
        (10 * digit_val a + digit_val b) (10 * digit_val c + digit_val d) 0"
    using assms by (simp add: parse_time_only_def split_two py_int_two del: str_split.simps)
  have f: "strptime [a, b, CHR '':'', c, d] YMD_HM = None"
    "strptime [a, b, CHR '':'', c, d] DMY_HM = None"
    using assms by (simp_all add: strptime_def no_ymd no_dmy strptime_build_def)
  show ?thesis
    by (simp add: parse_datetime_def s p f split: option.splits)
qed

text \<open>
  C6: on a valid current date, the text \<open>HH:MM\<close> written with two digits each parses to
  the current date at that hour and minute, with second 0, when the hour is below 24 and
  the minute below 60; for every other pair of two-digit numbers (\<open>24:00\<close>, \<open>12:60\<close>)
  the result is \<open>None\<close>. The function is total: every exception of the Python code is a
  branch that ends in a value.
\<close>

theorem parse_datetime_hh_mm:
  assumes "valid_date (year today) (month today) (day today)" "h < 100" "m < 100"
  shows "parse_datetime today (hh_mm h m) =
     (if h < 24 \<and> m < 60
      then Some \<lparr>year = year today, month = month today, day = day today,
                 hour = int h, minute = int m, second = 0, microsecond = 0\<rparr>
      else None)"
proof -
  have d: "h div 10 < 10" "h mod 10 < 10" "m div 10 < 10" "m mod 10 < 10"
    using assms by simp_all
  have hv: "10 * int (h div 10) + int (h mod 10) = int h" by presburger
  have mv: "10 * int (m div 10) + int (m mod 10) = int m" by presburger
  have "parse_datetime today (hh_mm h m) =
     datetime_new (year today) (month today) (day today) (int h) (int m) 0"
    unfolding hh_mm_def two_digits_def
    using parse_digits [of "digit_char (h div 10)" "digit_char (h mod 10)"
                           "digit_char (m div 10)" "digit_char (m mod 10)" today]
    by (simp add: digit_char_props d hv mv)
  then show ?thesis
    using assms(1) by (auto simp add: datetime_new_def)
qed

theorem parse_datetime_hh_mm_witness:
  "valid_date (year new_year) (month new_year) (day new_year) \<and>
   parse_datetime new_year ''09:30'' = Some (moment 2024 1 1 9 30) \<and>
   parse_datetime new_year ''24:00'' = None \<and>
   parse_datetime new_year ''12:60'' = None"
proof -
  have v: "valid_date (year new_year) (month new_year) (day new_year)"
    by code_simp
  have t: "hh_mm 9 30 = ''09:30''" "hh_mm 24 0 = ''24:00''" "hh_mm 12 60 = ''12:60''"
    by code_simp+
  show ?thesis
    using v parse_datetime_hh_mm [OF v, of 9 30] parse_datetime_hh_mm [OF v, of 24 0]
      parse_datetime_hh_mm [OF v, of 12 60]
    by (simp add: t new_year_def moment_def)
qed

subsection \<open>Scheduling a message\<close>





























subsection \<open>Paging through the topics of a forum\<close>

lemma last_msg_date_find:
  "last_msg_date oid ms =
     (case find (\<lambda>m. msg_id m = Some oid) ms of None \<Rightarrow> None | Some m \<Rightarrow> msg_date m)"
  by (induction ms) simp_all

lemma next_cursor_from_last: "next_cursor res = cursor_from_last res"
  by (simp add: next_cursor_def cursor_from_last_def last_msg_date_find)

lemma append_topics_eq:
  "append_topics acc ts = acc @ map topic_info (filter has_title ts)"
  by (induction ts arbitrary: acc)
     (auto simp add: has_title_def topic_info_def split: option.splits)

lemma append_topics_append:
  "append_topics acc (xs @ ys) = append_topics (append_topics acc xs) ys"
  by (simp add: append_topics_eq)

lemma topics_loop_run:
  assumes "topics_loop cl lim cur acc = Some y"
  shows "respond (fst y) = respond cl \<and>
         (\<exists>new. requests (fst y) = requests cl @ new \<and> paged (respond cl) lim cur new \<and>
            (case snd y of
               Inl e \<Rightarrow> True
             | Inr r \<Rightarrow> r = append_topics acc (fetched (respond cl) new)))"
proof (rule topics_loop.raw_induct
    [where P = "\<lambda>cl lim cur acc y. respond (fst y) = respond cl \<and>
         (\<exists>new. requests (fst y) = requests cl @ new \<and> paged (respond cl) lim cur new \<and>
            (case snd y of
               Inl e \<Rightarrow> True
             | Inr r \<Rightarrow> r = append_topics acc (fetched (respond cl) new)))", OF _ assms])
  fix loop :: "TelegramClient \<Rightarrow> int \<Rightarrow> cursor \<Rightarrow> TopicInfo list
                 \<Rightarrow> (TelegramClient \<times> (exn + TopicInfo list)) option"
  fix cl lim cur acc y
  assume ih: "\<And>cl lim cur acc y. loop cl lim cur acc = Some y \<Longrightarrow>
      respond (fst y) = respond cl \<and>
         (\<exists>new. requests (fst y) = requests cl @ new \<and> paged (respond cl) lim cur new \<and>
            (case snd y of
               Inl e \<Rightarrow> True
             | Inr r \<Rightarrow> r = append_topics acc (fetched (respond cl) new)))"
  assume body: "(case invoke cl (page_request cur lim) of
        (cl1, Inl e) \<Rightarrow> Some (cl1, Inl e)
      | (cl1, Inr res) \<Rightarrow>
          if topics res = [] then Some (cl1, Inr acc)
          else if int (length (topics res)) < lim
            then Some (cl1, Inr (append_topics acc (topics res)))
          else loop cl1 lim (next_cursor res) (append_topics acc (topics res))) = Some y"
  let ?rq = "page_request cur lim"
  let ?cl1 = "cl\<lparr>requests := requests cl @ [?rq]\<rparr>"
  show "respond (fst y) = respond cl \<and>
         (\<exists>new. requests (fst y) = requests cl @ new \<and> paged (respond cl) lim cur new \<and>
            (case snd y of
               Inl e \<Rightarrow> True
             | Inr r \<Rightarrow> r = append_topics acc (fetched (respond cl) new)))"
  proof (cases "respond cl ?rq")
    case (Inl e)
    with body have "y = (?cl1, Inl e)"
      by (simp add: invoke_def)
    with Inl show ?thesis
      by (auto intro!: exI [of _ "[?rq]"])
  next
    case (Inr res)
    show ?thesis
    proof (cases "topics res = [] \<or> int (length (topics res)) < lim")
      case True
      with body Inr have "y = (?cl1, Inr (append_topics acc (topics res)))"
        by (auto simp add: invoke_def split: if_splits)
      with Inr True show ?thesis
        by (auto intro!: exI [of _ "[?rq]"] simp add: fetched_def)
    next
      case False
      with body Inr
      have call: "loop ?cl1 lim (next_cursor res) (append_topics acc (topics res)) = Some y"
        by (auto simp add: invoke_def)
      from ih [OF call] obtain new where
        r: "respond (fst y) = respond cl"
        and n: "requests (fst y) = requests cl @ [?rq] @ new"
        and p: "paged (respond cl) lim (cursor_from_last res) new"
        and o: "(case snd y of Inl e \<Rightarrow> True
                 | Inr r \<Rightarrow> r = append_topics (append_topics acc (topics res))
                                  (fetched (respond cl) new))"
        by (auto simp add: next_cursor_from_last cong: sum.case_cong)
      have "paged (respond cl) lim cur (?rq # new)"
        using Inr False p by simp
      moreover have "fetched (respond cl) (?rq # new) = topics res @ fetched (respond cl) new"
        using Inr by (simp add: fetched_def)
      ultimately show ?thesis
        using r n o
        by (intro conjI exI [of _ "?rq # new"])
           (auto simp add: append_topics_append split: sum.splits)
    qed
  qed
qed


lemma get_all_forum_topics_run:
  assumes "get_all_forum_topics cl lim = Some (cl1, out)"
  shows "paged (respond cl) lim \<lparr>offset_date = None, offset_id = 0, offset_topic = 0\<rparr>
           (new_requests cl cl1) \<and>
         (case out of
            Inl e \<Rightarrow> True
          | Inr r \<Rightarrow> r = sort_topics (map topic_info (filter has_title
                            (fetched (respond cl) (new_requests cl cl1)))))"
proof -
  from assms obtain out0 where
    run: "topics_loop cl lim \<lparr>offset_date = None, offset_id = 0, offset_topic = 0\<rparr> []
            = Some (cl1, out0)"
    and out: "out = (case out0 of Inl e \<Rightarrow> Inl e | Inr ts \<Rightarrow> Inr (sort_topics ts))"
    by (auto simp add: get_all_forum_topics_def split: option.splits sum.splits)
  from topics_loop_run [OF run] obtain new where
    n: "requests cl1 = requests cl @ new"
    and p: "paged (respond cl) lim \<lparr>offset_date = None, offset_id = 0, offset_topic = 0\<rparr> new"
    and o: "(case out0 of Inl e \<Rightarrow> True
             | Inr r \<Rightarrow> r = append_topics [] (fetched (respond cl) new))"
    by auto
  from n have "new_requests cl cl1 = new"
    by (simp add: new_requests_def)
  with p o out show ?thesis
    by (auto simp add: append_topics_eq split: sum.splits)
qed

lemma key_le_pinned_then_title:
  "(\<not> pinned a, lower (title a)) \<le> (\<not> pinned b, lower (title b)) \<Longrightarrow> pinned_then_title a b"
  by (auto simp add: pinned_then_title_def less_eq_prod_def)

lemma sorted_topics: "sorted_wrt pinned_then_title (sort_topics ts)"
proof -
  have "sorted (map (\<lambda>x. (\<not> pinned x, lower (title x))) (sort_topics ts))"
    unfolding sort_topics_def by (rule sorted_sort_key)
  then have "sorted_wrt (\<lambda>a b. (\<not> pinned a, lower (title a)) \<le> (\<not> pinned b, lower (title b)))
               (sort_topics ts)"
    by (simp add: sorted_map)
  then show ?thesis
    by (rule sorted_wrt_mono_rel [rotated]) (rule key_le_pinned_then_title)
qed

lemma mset_sort_topics: "mset (sort_topics ts) = mset ts"
  by (simp add: sort_topics_def)

lemma five_loop:
  "topics_loop five_client 2 \<lparr>offset_date = None, offset_id = 0, offset_topic = 0\<rparr> [] =
     Some (five_done, Inr (map topic_info (filter has_title five_topics)))"
  by (simp add: topics_loop.simps invoke_def page_request_def
      five_client_def five_done_def forum_client_def forum_respond_def
      five_topics_def topic_def untitled_def top_messages_def forum_id_def or_zero_def
      or_false_def next_cursor_def first_request_def second_request_def third_request_def
      moment_def topic_info_def has_title_def)

lemma five_sorted: "sort_topics (map topic_info (filter has_title five_topics)) = five_result"
  by code_simp

lemma five_run: "get_all_forum_topics five_client 2 = Some (five_done, Inr five_result)"
  by (simp add: get_all_forum_topics_def five_loop five_sorted)

lemma five_new: "new_requests five_client five_done = [first_request, second_request, third_request]"
  by code_simp

text \<open>
  C5: the requests of a call that returns are \<open>paged\<close>: the first carries the empty
  cursor, and after every page that is neither empty nor shorter than the limit (so after
  every full page) the next request carries the cursor taken from the last topic of that
  page: its id, the id of its top message, and the date of the first message of the page
  with that id, or \<open>None\<close> when there is none (or it has no date); after a page shorter
  than the limit no request follows. The second part is the same fact for one pass of
  the loop, whether or not the loop ever returns: on a short page the loop returns at
  once, and the cursor is not computed.
\<close>

theorem next_cursor_from_last_topic:
  "(get_all_forum_topics cl lim = Some (cl1, out) \<longrightarrow>
      paged (respond cl) lim \<lparr>offset_date = None, offset_id = 0, offset_topic = 0\<rparr>
        (new_requests cl cl1)) \<and>
   (respond cl (page_request cur lim) = Inr res \<longrightarrow>
      topics_loop cl lim cur acc =
        (if topics res = []
           then Some (cl\<lparr>requests := requests cl @ [page_request cur lim]\<rparr>, Inr acc)
         else if int (length (topics res)) < lim
           then Some (cl\<lparr>requests := requests cl @ [page_request cur lim]\<rparr>,
                      Inr (append_topics acc (topics res)))
         else topics_loop (cl\<lparr>requests := requests cl @ [page_request cur lim]\<rparr>) lim
                (cursor_from_last res) (append_topics acc (topics res))))"
proof (intro conjI impI)
  assume "get_all_forum_topics cl lim = Some (cl1, out)"
  from get_all_forum_topics_run [OF this]
  show "paged (respond cl) lim \<lparr>offset_date = None, offset_id = 0, offset_topic = 0\<rparr>
          (new_requests cl cl1)"
    by simp
next
  assume "respond cl (page_request cur lim) = Inr res"
  then show "topics_loop cl lim cur acc =
        (if topics res = []
           then Some (cl\<lparr>requests := requests cl @ [page_request cur lim]\<rparr>, Inr acc)
         else if int (length (topics res)) < lim
           then Some (cl\<lparr>requests := requests cl @ [page_request cur lim]\<rparr>,
                      Inr (append_topics acc (topics res)))
         else topics_loop (cl\<lparr>requests := requests cl @ [page_request cur lim]\<rparr>) lim
                (cursor_from_last res) (append_topics acc (topics res)))"
    by (subst topics_loop.simps) (simp add: invoke_def next_cursor_from_last)
qed

theorem next_cursor_from_last_topic_witness:
  "get_all_forum_topics five_client 2 = Some (five_done, Inr five_result) \<and>
   new_requests five_client five_done = [first_request, second_request, third_request] \<and>
   paged (respond five_client) 2 \<lparr>offset_date = None, offset_id = 0, offset_topic = 0\<rparr>
     [first_request, second_request, third_request]"
  using five_run five_new
    next_cursor_from_last_topic [of five_client 2 five_done "Inr five_result"]
  by simp

text \<open>
  C7: the list a call returns holds exactly the fetched topics that have a title, each
  once (as a multiset, the converted topics of the pages; so its length is the number
  of fetched topics with a title), and it is ordered with the pinned topics first and
  the lower-cased titles ascending among the pinned and among the unpinned topics.
\<close>

theorem topics_sorted_and_complete:
  assumes "get_all_forum_topics cl lim = Some (cl1, Inr result)"
  shows "mset result =
           mset (map topic_info (filter has_title (fetched (respond cl) (new_requests cl cl1)))) \<and>
         length result = length (filter has_title (fetched (respond cl) (new_requests cl cl1))) \<and>
         sorted_wrt pinned_then_title result"
proof -
  from get_all_forum_topics_run [OF assms]
  have r: "result = sort_topics (map topic_info (filter has_title
                       (fetched (respond cl) (new_requests cl cl1))))"
    by simp
  have "length result = length (filter has_title (fetched (respond cl) (new_requests cl cl1)))"
    unfolding r by (simp add: sort_topics_def)
  then show ?thesis
    using r by (simp add: mset_sort_topics sorted_topics)
qed

theorem topics_sorted_and_complete_witness:
  "get_all_forum_topics five_client 2 = Some (five_done, Inr five_result) \<and>
   fetched (respond five_client) (new_requests five_client five_done) = five_topics \<and>
   mset five_result = mset (map topic_info (filter has_title five_topics)) \<and>
   length five_result = length (filter has_title five_topics) \<and>
   sorted_wrt pinned_then_title five_result"
proof -
  have f: "fetched (respond five_client) (new_requests five_client five_done) = five_topics"
    by code_simp
  show ?thesis
    using five_run f topics_sorted_and_complete [OF five_run] by simp
qed

subsection \<open>The number of round trips\<close>

lemma dropWhile_distinct:
  "distinct (map f xs) \<Longrightarrow> i < length xs \<Longrightarrow>
   dropWhile (\<lambda>t. f t \<noteq> f (xs ! i)) xs = drop i xs"
proof (induction xs arbitrary: i)
  case Nil
  then show ?case by simp
next
  case (Cons x xs)
  show ?case
  proof (cases i)
    case 0
    then show ?thesis by simp
  next
    case (Suc j)
    with Cons.prems have "j < length xs" "xs ! j \<in> set xs" by simp_all
    with Cons.prems have "f x \<noteq> f (xs ! j)" by auto
    with Cons Suc \<open>j < length xs\<close> show ?thesis by simp
  qed
qed

text \<open>The cursor points behind the first \<open>n\<close> topics of the forum.\<close>

lemma forum_respond_at:
  assumes wf: "well_formed forum"
    and pos: "n \<le> length forum"
    and cur: "offset_topic cur = (if n = 0 then 0 else forum_id (forum ! (n - 1)))"
  shows "forum_respond forum msgs (page_request cur lim) =
           Inr \<lparr>topics = take (nat lim) (drop n forum), messages = msgs\<rparr>"
proof (cases "n = 0")
  case True
  with cur show ?thesis
    by (simp add: forum_respond_def page_request_def)
next
  case False
  with pos have i: "n - 1 < length forum" by simp
  then have "forum_id (forum ! (n - 1)) \<in> set (map forum_id forum)"
    by simp
  with wf have nz: "forum_id (forum ! (n - 1)) \<noteq> 0"
    by (auto simp add: well_formed_def)
  have "dropWhile (\<lambda>t. forum_id t \<noteq> forum_id (forum ! (n - 1))) forum = drop (n - 1) forum"
    using wf i by (intro dropWhile_distinct) (simp_all add: well_formed_def)
  with False cur nz show ?thesis
    by (simp add: forum_respond_def page_request_def)
qed

lemma forum_loop:
  assumes wf: "well_formed forum" and lim: "0 < lim"
    and rsp: "respond cl = forum_respond forum msgs"
    and pos: "n \<le> length forum"
    and cur: "offset_topic cur = (if n = 0 then 0 else forum_id (forum ! (n - 1)))"
  shows "\<exists>cl1. topics_loop cl lim cur acc = Some (cl1, Inr (append_topics acc (drop n forum))) \<and>
           length (requests cl1) = length (requests cl) + (length forum - n) div nat lim + 1"
  using rsp pos cur
proof (induction "length forum - n" arbitrary: n cl cur acc rule: less_induct)
  case less
  let ?p = "nat lim"
  let ?rq = "page_request cur lim"
  let ?page = "take ?p (drop n forum)"
  let ?cl1 = "cl\<lparr>requests := requests cl @ [?rq]\<rparr>"
  have p: "0 < ?p" using lim by simp
  have r: "respond cl ?rq = Inr \<lparr>topics = ?page, messages = msgs\<rparr>"
    using forum_respond_at [OF wf less.prems(2) less.prems(3)] less.prems(1) by simp
  have len: "length ?page = min ?p (length forum - n)" by simp
  show ?case
  proof (cases "length forum - n < ?p")
    case True
    then have whole: "?page = drop n forum" by simp
    have short: "?page = [] \<or> int (length ?page) < lim"
      using True len lim by auto
    have "topics_loop cl lim cur acc = Some (?cl1, Inr (append_topics acc ?page))"
      using r short by (subst topics_loop.simps) (auto simp add: invoke_def)
    with True whole show ?thesis by auto
  next
    case False
    then have full: "length ?page = ?p" using len by simp
    with p have ne: "?page \<noteq> []" by auto
    have nshort: "\<not> int (length ?page) < lim" using full lim by simp
    have step: "topics_loop cl lim cur acc =
        topics_loop ?cl1 lim (next_cursor \<lparr>topics = ?page, messages = msgs\<rparr>)
          (append_topics acc ?page)"
      using r ne nshort by (subst topics_loop.simps) (simp add: invoke_def)
    have n': "n + ?p \<le> length forum" using False less.prems(2) by linarith
    have "last ?page = ?page ! (?p - 1)"
      using ne full by (simp add: last_conv_nth)
    also have "\<dots> = forum ! (n + ?p - 1)"
      using p n' by (simp add: add.commute)
    finally have lastp: "last ?page = forum ! (n + ?p - 1)" .
    have cur': "offset_topic (next_cursor \<lparr>topics = ?page, messages = msgs\<rparr>) =
        (if n + ?p = 0 then 0 else forum_id (forum ! (n + ?p - 1)))"
      using p lastp by (simp add: next_cursor_def forum_id_def)
    have dec: "length forum - (n + ?p) < length forum - n"
      using p n' by simp
    have rsp': "respond ?cl1 = forum_respond forum msgs"
      using less.prems(1) by simp
    from less.hyps [OF dec rsp' n' cur', of "append_topics acc ?page"]
    obtain cl2 where
      run: "topics_loop ?cl1 lim (next_cursor \<lparr>topics = ?page, messages = msgs\<rparr>)
              (append_topics acc ?page)
            = Some (cl2, Inr (append_topics (append_topics acc ?page) (drop (n + ?p) forum)))"
      and cnt: "length (requests cl2) =
                  length (requests ?cl1) + (length forum - (n + ?p)) div ?p + 1"
      by auto
    have "?page @ drop (n + ?p) forum = drop n forum"
      using append_take_drop_id [of ?p "drop n forum"] by (simp add: add.commute)
    then have res: "append_topics (append_topics acc ?page) (drop (n + ?p) forum)
                = append_topics acc (drop n forum)"
      by (simp add: append_topics_append [symmetric])
    have "(length forum - n) div ?p = Suc ((length forum - n - ?p) div ?p)"
      using p False by (intro le_div_geq) simp_all
    with cnt have "length (requests cl2) = length (requests cl) + (length forum - n) div ?p + 1"
      by simp
    with run res step show ?thesis by auto
  qed
qed

lemma div_of_remainder:
  fixes r k p :: nat
  assumes "r < p"
  shows "(r + k * p) div p = k"
  using assms by simp

text \<open>
  C1, as stated, fails: a forum of two topics read with page size 2 takes two round
  trips, not 2 / 2 = 1: the full page does not end the loop, the empty page after it does.
\<close>

theorem exact_multiple_needs_empty_page:
  "well_formed two_topics \<and> length two_topics = 2 \<and>
   round_trips (get_all_forum_topics (forum_client two_topics []) 2) = Some 2 \<and>
   round_trips (get_all_forum_topics (forum_client two_topics []) 2)
     \<noteq> Some (length two_topics div 2)"
  by code_simp

text \<open>
  C1, amended: against a forum of N topics with distinct non-zero ids and with a page
  size of at least 1, the call returns after N div pageSize + 1 round trips: that is
  the ceiling of N / pageSize when N is not a multiple of the page size, and
  N / pageSize + 1 when it is (the last request of such a run returns the empty page).
\<close>

theorem round_trips_of_forum:
  assumes "well_formed forum" and "0 < lim"
  shows "round_trips (get_all_forum_topics (forum_client forum msgs) lim) =
           Some (if nat lim dvd length forum then length forum div nat lim + 1
                 else (length forum + nat lim - 1) div nat lim)"
proof -
  let ?p = "nat lim"
  have p: "0 < ?p" using assms(2) by simp
  from forum_loop [OF assms, of "forum_client forum msgs" msgs 0
      "\<lparr>offset_date = None, offset_id = 0, offset_topic = 0\<rparr>" "[]"]
  obtain cl1 where
    run: "topics_loop (forum_client forum msgs) lim
            \<lparr>offset_date = None, offset_id = 0, offset_topic = 0\<rparr> []
          = Some (cl1, Inr (append_topics [] forum))"
    and cnt: "length (requests cl1) = length forum div ?p + 1"
    by (auto simp add: forum_client_def)
  have rt: "round_trips (get_all_forum_topics (forum_client forum msgs) lim)
              = Some (length forum div ?p + 1)"
    using run cnt by (simp add: round_trips_def get_all_forum_topics_def)
  have "(length forum + ?p - 1) div ?p = length forum div ?p + 1" if "\<not> ?p dvd length forum"
  proof -
    let ?n = "length forum"
    from that obtain r where r: "?n mod ?p = Suc r"
      by (cases "?n mod ?p") (auto simp add: dvd_eq_mod_eq_0)
    have "?n = ?n div ?p * ?p + Suc r"
      using div_mult_mod_eq [of ?n ?p] r by simp
    then have "?n + ?p - 1 = r + (?n div ?p + 1) * ?p"
      by simp
    then have "(?n + ?p - 1) div ?p = (r + (?n div ?p + 1) * ?p) div ?p"
      by (simp only:)
    also have "\<dots> = ?n div ?p + 1"
      using r mod_less_divisor [OF p, of ?n] by (intro div_of_remainder) simp
    finally show ?thesis .
  qed
  with rt show ?thesis by simp
qed

theorem round_trips_of_forum_witness:
  "well_formed five_topics \<and>
   round_trips (get_all_forum_topics (forum_client five_topics top_messages) 2) = Some 3 \<and>
   well_formed two_topics \<and>
   round_trips (get_all_forum_topics (forum_client two_topics top_messages) 2) = Some 2 \<and>
   round_trips (get_all_forum_topics (forum_client [] []) 100) = Some 1"
proof -
  have w: "well_formed five_topics" "well_formed two_topics" "well_formed []"
    by code_simp+
  have l: "length five_topics = 5" "length two_topics = 2"
    by code_simp+
  show ?thesis
    using w round_trips_of_forum [OF w(1), of 2 top_messages]
      round_trips_of_forum [OF w(2), of 2 top_messages]
      round_trips_of_forum [OF w(3), of 100 "[]"]
    by (simp add: l)
qed

end
